theory Spec2Isabelle
  imports Complex_Main
begin

section \<open>Python floats\<close>

text \<open>
  The validation loss handed to \<open>EarlyStopping.early_stop_check\<close> is a Python float, and the
  initial \<open>min_validation_loss\<close> is \<open>np.inf\<close>. A float is either a finite number, one of the
  two infinities, or NaN. A finite float is represented by the real number it denotes. The
  comparisons follow IEEE 754: every comparison with NaN is false.
\<close>

datatype pyfloat = Fin real | PosInf | NegInf | NaN

text \<open>
  The sum of two finite floats overflows to an infinity when the exact sum reaches the
  limit of the format: \<open>2^1024 - 2^970\<close> for a Python float (binary64), \<open>2^128 - 2^103\<close> for
  a float32 tensor. Every finite float lies strictly inside the limit; a \<open>Fin x\<close> with
  \<open>x\<close> outside it is no float, and a sum with such an operand is left as it is. Below the
  limit the exact sum stands for the float nearest to it: rounding inside the range is not
  represented.
\<close>

definition float64_limit :: real where
  "float64_limit = 2 ^ 1024 - 2 ^ 970"

definition float32_limit :: real where
  "float32_limit = 2 ^ 128 - 2 ^ 103"

definition finite_sum :: "real \<Rightarrow> real \<Rightarrow> real \<Rightarrow> pyfloat" where
  "finite_sum m a b =
     (if \<bar>a\<bar> < m \<and> \<bar>b\<bar> < m \<and> m \<le> a + b then PosInf
      else if \<bar>a\<bar> < m \<and> \<bar>b\<bar> < m \<and> a + b \<le> - m then NegInf
      else Fin (a + b))"

text \<open>\<open>a + b\<close> on Python floats.\<close>

fun fadd :: "pyfloat \<Rightarrow> pyfloat \<Rightarrow> pyfloat" where
  "fadd NaN _ = NaN"
| "fadd _ NaN = NaN"
| "fadd PosInf NegInf = NaN"
| "fadd NegInf PosInf = NaN"
| "fadd PosInf _ = PosInf"
| "fadd _ PosInf = PosInf"
| "fadd NegInf _ = NegInf"
| "fadd _ NegInf = NegInf"
| "fadd (Fin a) (Fin b) = finite_sum float64_limit a b"

text \<open>\<open>a + b\<close> on the values of float32 tensors.\<close>

fun tadd :: "pyfloat \<Rightarrow> pyfloat \<Rightarrow> pyfloat" where
  "tadd NaN _ = NaN"
| "tadd _ NaN = NaN"
| "tadd PosInf NegInf = NaN"
| "tadd NegInf PosInf = NaN"
| "tadd PosInf _ = PosInf"
| "tadd _ PosInf = PosInf"
| "tadd NegInf _ = NegInf"
| "tadd _ NegInf = NegInf"
| "tadd (Fin a) (Fin b) = finite_sum float32_limit a b"

text \<open>\<open>a < b\<close> on floats.\<close>

fun flt :: "pyfloat \<Rightarrow> pyfloat \<Rightarrow> bool" where
  "flt (Fin a) (Fin b) = (a < b)"
| "flt (Fin _) PosInf = True"
| "flt NegInf (Fin _) = True"
| "flt NegInf PosInf = True"
| "flt _ _ = False"

text \<open>\<open>a >= b\<close> on floats.\<close>

fun fge :: "pyfloat \<Rightarrow> pyfloat \<Rightarrow> bool" where
  "fge NaN _ = False"
| "fge _ NaN = False"
| "fge PosInf _ = True"
| "fge _ NegInf = True"
| "fge (Fin a) (Fin b) = (b \<le> a)"
| "fge _ _ = False"

fun is_nan :: "pyfloat \<Rightarrow> bool" where
  "is_nan NaN = True"
| "is_nan _ = False"

fun is_finite :: "pyfloat \<Rightarrow> bool" where
  "is_finite (Fin _) = True"
| "is_finite _ = False"

section \<open>Early stopping (transfer\_cnn.py)\<close>

text \<open>
  \<^verbatim>\<open>
  class EarlyStopping:
      def __init__(self, tolerance: int = 3, min_delta: float = 0.0) -> None:
          self.tolerance = tolerance
          self.min_delta = min_delta
          self.counter = 0
          self.min_validation_loss = np.inf
  \<close>
\<close>

record early_stopping =
  tolerance :: int
  min_delta :: pyfloat
  counter :: int
  min_validation_loss :: pyfloat

definition EarlyStopping :: "int \<Rightarrow> pyfloat \<Rightarrow> early_stopping" where
  "EarlyStopping tol delta =
     \<lparr>tolerance = tol, min_delta = delta, counter = 0, min_validation_loss = PosInf\<rparr>"

text \<open>
  \<^verbatim>\<open>
      def early_stop_check(self, validation_loss):
          if (validation_loss + self.min_delta) < self.min_validation_loss:
              self.min_validation_loss = validation_loss
              self.counter = 0
          elif (validation_loss + self.min_delta) >= self.min_validation_loss:
              self.counter += 1
              if self.counter >= self.tolerance:
                  return True
          return False
  \<close>
  The method mutates the object; the model returns the answer together with the new
  object.
\<close>

definition early_stop_check :: "early_stopping \<Rightarrow> pyfloat \<Rightarrow> bool \<times> early_stopping" where
  "early_stop_check self validation_loss =
     (if flt (fadd validation_loss (min_delta self)) (min_validation_loss self) then
        (False, self\<lparr>min_validation_loss := validation_loss, counter := 0\<rparr>)
      else if fge (fadd validation_loss (min_delta self)) (min_validation_loss self) then
        (let self' = self\<lparr>counter := counter self + 1\<rparr>
         in if counter self' \<ge> tolerance self' then (True, self') else (False, self'))
      else (False, self))"

text \<open>
  Successive calls of \<open>early_stop_check\<close> on one instance, one per validation loss, in order:
  the answers of the calls and the instance after the last call.
\<close>

fun feed :: "early_stopping \<Rightarrow> pyfloat list \<Rightarrow> bool list \<times> early_stopping" where
  "feed self [] = ([], self)"
| "feed self (v # vs) =
     (case early_stop_check self v of
        (stop, self') \<Rightarrow> (case feed self' vs of (stops, self'') \<Rightarrow> (stop # stops, self'')))"

text \<open>
  The transition as the specification words it: an improvement when
  \<open>v + min_delta < best_loss\<close>, and in every other case the counter goes up by one and the
  answer is whether it has reached the tolerance.
\<close>

definition early_stop_spec :: "early_stopping \<Rightarrow> pyfloat \<Rightarrow> bool \<times> early_stopping" where
  "early_stop_spec self v =
     (if flt (fadd v (min_delta self)) (min_validation_loss self) then
        (False, self\<lparr>min_validation_loss := v, counter := 0\<rparr>)
      else (counter self + 1 \<ge> tolerance self, self\<lparr>counter := counter self + 1\<rparr>))"

text \<open>
  Which branch a call takes: the \<open>if\<close> (an improvement), the \<open>elif\<close> (no improvement),
  or neither (the two comparisons are both false).
\<close>

datatype outcome = Improved | NotImproved | Neither

definition branch :: "early_stopping \<Rightarrow> pyfloat \<Rightarrow> outcome" where
  "branch self v =
     (if flt (fadd v (min_delta self)) (min_validation_loss self) then Improved
      else if fge (fadd v (min_delta self)) (min_validation_loss self) then NotImproved
      else Neither)"

fun branches :: "early_stopping \<Rightarrow> pyfloat list \<Rightarrow> outcome list" where
  "branches self [] = []"
| "branches self (v # vs) = branch self v # branches (snd (early_stop_check self v)) vs"

text \<open>
  The calls since the last improvement (or since the first call, when there was none), and
  how many of them took the \<open>elif\<close> branch.
\<close>

definition since_improvement :: "outcome list \<Rightarrow> outcome list" where
  "since_improvement os = rev (takeWhile (\<lambda>b. b \<noteq> Improved) (rev os))"

definition streak :: "outcome list \<Rightarrow> nat" where
  "streak os = length (filter (\<lambda>b. b = NotImproved) (since_improvement os))"

section \<open>Errors\<close>

text \<open>The exceptions that the modelled code can raise.\<close>

datatype error = ZeroDivisionError | FileNotFoundError | ValueError

section \<open>The train/validation split (all three scripts)\<close>

text \<open>
  \<^verbatim>\<open>
      train_size = int(0.8 * len(trainset))
      val_size = len(trainset) - train_size
      trainset, valset = torch.utils.data.random_split(trainset, [train_size, val_size])
  \<close>
  The three lines are the same in simple\_cnn.py, soph\_cnn.py and transfer\_cnn.py. The
  product \<open>0.8 * n\<close> is taken over the reals, and \<open>int\<close> of a non-negative number is its
  floor.
\<close>

definition train_size :: "nat \<Rightarrow> nat" where
  "train_size n = nat \<lfloor>0.8 * real n\<rfloor>"

definition val_size :: "nat \<Rightarrow> nat" where
  "val_size n = n - train_size n"

text \<open>
  \<open>torch.utils.data.random_split\<close> belongs to the tensor library. It raises \<open>ValueError\<close> when
  the lengths do not sum to the size of the dataset; otherwise it draws a random permutation
  of the indices and cuts it into consecutive pieces of the given lengths. The permutation
  drawn is a parameter here.
\<close>

fun slices :: "'a list \<Rightarrow> nat list \<Rightarrow> 'a list list" where
  "slices xs [] = []"
| "slices xs (l # ls) = take l xs # slices (drop l xs) ls"

definition random_split :: "nat list \<Rightarrow> nat \<Rightarrow> nat list \<Rightarrow> error + nat list list" where
  "random_split perm n lengths =
     (if sum_list lengths \<noteq> n then Inl ValueError else Inr (slices perm lengths))"

definition split_train_val :: "nat list \<Rightarrow> nat \<Rightarrow> error + nat list list" where
  "split_train_val perm n = random_split perm n [train_size n, val_size n]"

section \<open>Transform pipelines and the partitions they are applied to\<close>

datatype variant = Simple_cnn | Soph_cnn | Transfer_cnn

datatype transform =
    ToTensor
  | Normalize "real list" "real list"
  | RandomHorizontalFlip
  | RandomRotation real

text \<open>
  \<^verbatim>\<open>
      transform_train = transforms.Compose([
              transforms.ToTensor(),
              transforms.Normalize([0.5071, 0.4867, 0.4408], [0.2675, 0.2565, 0.2761]),
              transforms.RandomHorizontalFlip(),
              transforms.RandomRotation(15)])
  \<close>
  in soph\_cnn.py and transfer\_cnn.py; simple\_cnn.py has only \<open>ToTensor\<close> and a
  \<open>Normalize\<close> with other constants.
\<close>

fun transform_train :: "variant \<Rightarrow> transform list" where
  "transform_train Simple_cnn =
     [ToTensor, Normalize [0.4914, 0.4822, 0.4465] [0.2023, 0.1994, 0.2010]]"
| "transform_train Soph_cnn =
     [ToTensor, Normalize [0.5071, 0.4867, 0.4408] [0.2675, 0.2565, 0.2761],
      RandomHorizontalFlip, RandomRotation 15]"
| "transform_train Transfer_cnn =
     [ToTensor, Normalize [0.5071, 0.4867, 0.4408] [0.2675, 0.2565, 0.2761],
      RandomHorizontalFlip, RandomRotation 15]"

fun transform_test :: "variant \<Rightarrow> transform list" where
  "transform_test Simple_cnn =
     [ToTensor, Normalize [0.4914, 0.4822, 0.4465] [0.2023, 0.1994, 0.2010]]"
| "transform_test Soph_cnn =
     [ToTensor, Normalize [0.5071, 0.4867, 0.4408] [0.2675, 0.2565, 0.2761]]"
| "transform_test Transfer_cnn =
     [ToTensor, Normalize [0.5071, 0.4867, 0.4408] [0.2675, 0.2565, 0.2761]]"

text \<open>
  \<^verbatim>\<open>
      trainset = torchvision.datasets.CIFAR100(
          root="./data", train=True, download=True, transform=transform_train)
      ...
      trainset, valset = torch.utils.data.random_split(trainset, [train_size, val_size])
      ...
      testset = torchvision.datasets.CIFAR100(
          root="./data", train=False, download=True, transform=transform_test)
  \<close>
  \<open>random_split\<close> returns two index subsets of the one dataset object it is given, so a
  sample of \<open>valset\<close> is read through the dataset built with \<open>transform=transform_train\<close>.
\<close>

datatype partition = Train | Validation | Test

fun partition_transform :: "variant \<Rightarrow> partition \<Rightarrow> transform list" where
  "partition_transform v Train = transform_train v"
| "partition_transform v Validation = transform_train v"
| "partition_transform v Test = transform_test v"

text \<open>The transforms that draw random numbers each time they are applied.\<close>

fun is_random :: "transform \<Rightarrow> bool" where
  "is_random ToTensor = False"
| "is_random (Normalize _ _) = False"
| "is_random RandomHorizontalFlip = True"
| "is_random (RandomRotation _) = True"

definition deterministic :: "transform list \<Rightarrow> bool" where
  "deterministic pipeline = (filter is_random pipeline = [])"

section \<open>Checkpointing the best model (simple\_cnn.py and soph\_cnn.py)\<close>

text \<open>
  \<^verbatim>\<open>
      best_val_acc = 0.0
      for epoch in range(CONFIG["epochs"]):
          train_loss, train_acc = train(epoch, model, trainloader, optimizer, criterion, CONFIG)
          val_loss, val_acc = validate(model, valloader, criterion, CONFIG["device"])
          ...
          if val_acc > best_val_acc:
              best_val_acc = val_acc
              torch.save(model.state_dict(), "best_model.pth")
              wandb.save("best_model.pth")
  \<close>
  The state of the loop is the variable \<open>best_val_acc\<close> and the file \<open>best_model.pth\<close>
  (\<open>None\<close> when there is no such file). \<open>n_saves\<close> counts the calls of \<open>torch.save\<close>, so that
  an overwrite with equal contents is still seen. An epoch is represented by what it hands
  to the checkpoint branch: the validation accuracy (\<open>100.0 * correct / total\<close>, a finite
  float) and the parameters of the model at that moment.
\<close>

record 'p checkpointing =
  best_val_acc :: real
  best_model_pth :: "'p option"
  n_saves :: nat

definition start_training :: "'p option \<Rightarrow> 'p checkpointing" where
  "start_training file = \<lparr>best_val_acc = 0.0, best_model_pth = file, n_saves = 0\<rparr>"

definition save_if_best :: "'p checkpointing \<Rightarrow> real \<times> 'p \<Rightarrow> 'p checkpointing" where
  "save_if_best st epoch =
     (case epoch of (val_acc, params) \<Rightarrow>
        if val_acc > best_val_acc st then
          st\<lparr>best_val_acc := val_acc, best_model_pth := Some params, n_saves := n_saves st + 1\<rparr>
        else st)"

definition training_loop :: "'p checkpointing \<Rightarrow> (real \<times> 'p) list \<Rightarrow> 'p checkpointing" where
  "training_loop st epochs = foldl save_if_best st epochs"

text \<open>The state of a run when epoch \<open>i\<close> (counted from 0) reaches its checkpoint branch.\<close>

definition before_epoch :: "'p option \<Rightarrow> (real \<times> 'p) list \<Rightarrow> nat \<Rightarrow> 'p checkpointing" where
  "before_epoch file epochs i = training_loop (start_training file) (take i epochs)"

section \<open>Validation and evaluation\<close>

text \<open>
  A model object holds its parameters and its mode. Calling it runs its forward pass, which
  is code of the model and may change the object: \<open>forward grad model inputs\<close> gives the
  scores of a batch and the model after the call, where \<open>grad\<close> tells whether gradients are
  being recorded (\<open>False\<close> inside \<open>with torch.no_grad()\<close>). The loss criterion and the
  arg-max over the class scores belong to the tensor library and are parameters as well:
  \<open>criterion outputs labels\<close> is the value of the loss tensor of the batch, \<open>argmax outputs\<close>
  the predicted classes. Moving a tensor to a device does not change its value and is left
  out.
\<close>

record 'p module =
  state_dict :: 'p
  training :: bool

text \<open>\<open>predicted.eq(labels).sum().item()\<close>\<close>

definition correct_count :: "nat list \<Rightarrow> nat list \<Rightarrow> nat" where
  "correct_count predicted labels = length (filter (\<lambda>(p, l). p = l) (zip predicted labels))"

text \<open>
  The running loss is a Python float in soph\_cnn.py and transfer\_cnn.py, which add
  \<open>loss.item()\<close>, and a float32 tensor in simple\_cnn.py, which adds the tensor \<open>loss\<close>
  itself to the initial \<open>0.0\<close>.
\<close>

datatype number = PyFloat pyfloat | Tensor pyfloat

fun loss_term :: "variant \<Rightarrow> pyfloat \<Rightarrow> number" where
  "loss_term Simple_cnn loss = Tensor loss"
| "loss_term Soph_cnn loss = PyFloat loss"
| "loss_term Transfer_cnn loss = PyFloat loss"

text \<open>\<open>a + b\<close>: the sum is a tensor as soon as one operand is.\<close>

fun num_add :: "number \<Rightarrow> number \<Rightarrow> number" where
  "num_add (PyFloat a) (PyFloat b) = PyFloat (fadd a b)"
| "num_add (PyFloat a) (Tensor b) = Tensor (tadd a b)"
| "num_add (Tensor a) (PyFloat b) = Tensor (tadd a b)"
| "num_add (Tensor a) (Tensor b) = Tensor (tadd a b)"

text \<open>A float divided by a positive integer, and a float divided by the integer 0 in a tensor.\<close>

fun fdiv_nat :: "pyfloat \<Rightarrow> nat \<Rightarrow> pyfloat" where
  "fdiv_nat (Fin a) n = Fin (a / real n)"
| "fdiv_nat x n = x"

fun tdiv_zero :: "pyfloat \<Rightarrow> pyfloat" where
  "tdiv_zero (Fin a) = (if 0 < a then PosInf else if a < 0 then NegInf else NaN)"
| "tdiv_zero x = x"

text \<open>
  \<open>a / n\<close> for an integer \<open>n\<close>: a Python float divided by 0 raises \<open>ZeroDivisionError\<close>, a
  tensor divided by 0 does not.
\<close>

fun true_div :: "number \<Rightarrow> nat \<Rightarrow> error + number" where
  "true_div (PyFloat a) n = (if n = 0 then Inl ZeroDivisionError else Inr (PyFloat (fdiv_nat a n)))"
| "true_div (Tensor a) n = Inr (Tensor (if n = 0 then tdiv_zero a else fdiv_nat a n))"

text \<open>
  \<^verbatim>\<open>
  def validate(model, valloader, criterion, device):
      model.eval()
      running_loss = 0.0
      correct = 0
      total = 0
      with torch.no_grad():
          progress_bar = tqdm(valloader, desc="[Validate]", leave=False)
          for i, (inputs, labels) in enumerate(progress_bar):
              inputs, labels = inputs.to(device), labels.to(device)
              outputs = model(inputs)
              loss = criterion(outputs, labels)
              running_loss += loss.item()        # simple_cnn.py: running_loss += loss
              _, predicted = torch.max(outputs.data, 1)
              total += labels.size(0)
              correct += predicted.eq(labels).sum().item()
              progress_bar.set_postfix(
                  {"loss": running_loss / (i + 1), "acc": 100.0 * correct / total})
      val_loss = running_loss / len(valloader)
      val_acc = 100.0 * correct / total
      return val_loss, val_acc
  \<close>
  The function is the same in the three scripts except for the line that adds the loss;
  the first argument here is the script. The loader is the list of its batches, a batch
  the list of its inputs and the list of its labels. The model is threaded through the
  calls of its forward pass. The progress bar evaluates \<open>100.0 * correct / total\<close> after
  every batch, which raises \<open>ZeroDivisionError\<close> while \<open>total\<close> is still 0. The function
  contains no backward pass and no optimizer step.
\<close>

fun validate_loop ::
  "variant \<Rightarrow> (bool \<Rightarrow> 'p module \<Rightarrow> 'x list \<Rightarrow> 'o \<times> 'p module) \<Rightarrow> ('o \<Rightarrow> nat list) \<Rightarrow>
   ('o \<Rightarrow> nat list \<Rightarrow> pyfloat) \<Rightarrow> 'p module \<Rightarrow> ('x list \<times> nat list) list \<Rightarrow>
   number \<times> nat \<times> nat \<Rightarrow> error + 'p module \<times> number \<times> nat \<times> nat"
where
  "validate_loop v forward argmax criterion model [] acc = Inr (model, acc)"
| "validate_loop v forward argmax criterion model ((inputs, labels) # rest)
     (running_loss, correct, tot) =
     (case forward False model inputs of
        (outputs, model') \<Rightarrow>
          (let loss = criterion outputs labels;
               running_loss' = num_add running_loss (loss_term v loss);
               predicted = argmax outputs;
               tot' = tot + length labels;
               correct' = correct + correct_count predicted labels
           in if tot' = 0 then Inl ZeroDivisionError
              else validate_loop v forward argmax criterion model' rest
                     (running_loss', correct', tot')))"

definition validate ::
  "variant \<Rightarrow> (bool \<Rightarrow> 'p module \<Rightarrow> 'x list \<Rightarrow> 'o \<times> 'p module) \<Rightarrow> ('o \<Rightarrow> nat list) \<Rightarrow>
   ('o \<Rightarrow> nat list \<Rightarrow> pyfloat) \<Rightarrow> 'p module \<Rightarrow> ('x list \<times> nat list) list \<Rightarrow>
   error + 'p module \<times> number \<times> real"
where
  "validate v forward argmax criterion model valloader =
     (case validate_loop v forward argmax criterion (model\<lparr>training := False\<rparr>) valloader
             (PyFloat (Fin 0.0), 0, 0) of
        Inl e \<Rightarrow> Inl e
      | Inr (model', running_loss, correct, tot) \<Rightarrow>
          (case true_div running_loss (length valloader) of
             Inl e \<Rightarrow> Inl e
           | Inr val_loss \<Rightarrow>
               if tot = 0 then Inl ZeroDivisionError
               else Inr (model', val_loss, 100.0 * real correct / real tot)))"




text \<open>
  The successive forward passes of a loop over the batches, with gradients off: the scores
  of each batch and the model after the last call.
\<close>

fun forward_passes ::
  "(bool \<Rightarrow> 'p module \<Rightarrow> 'x list \<Rightarrow> 'o \<times> 'p module) \<Rightarrow> 'p module \<Rightarrow>
   ('x list \<times> nat list) list \<Rightarrow> 'o list \<times> 'p module"
where
  "forward_passes forward model [] = ([], model)"
| "forward_passes forward model (batch # rest) =
     (case forward False model (fst batch) of
        (outputs, model') \<Rightarrow>
          (case forward_passes forward model' rest of
             (outs, model'') \<Rightarrow> (outputs # outs, model'')))"

text \<open>
  What the batches contribute, given the scores of each: the loss, the number of correct
  predictions and the number of samples. The mean of the batch losses is computed as the
  loop does: added up from the Python float \<open>0.0\<close> in the order of the batches, then divided
  by the number of batches.
\<close>

definition batch_losses ::
  "('o \<Rightarrow> nat list \<Rightarrow> pyfloat) \<Rightarrow> 'o list \<Rightarrow> ('x list \<times> nat list) list \<Rightarrow> pyfloat list"
where
  "batch_losses criterion outs batches =
     map (\<lambda>(outputs, batch). criterion outputs (snd batch)) (zip outs batches)"

definition batch_corrects ::
  "('o \<Rightarrow> nat list) \<Rightarrow> 'o list \<Rightarrow> ('x list \<times> nat list) list \<Rightarrow> nat list"
where
  "batch_corrects argmax outs batches =
     map (\<lambda>(outputs, batch). correct_count (argmax outputs) (snd batch)) (zip outs batches)"

definition batch_size :: "'x list \<times> nat list \<Rightarrow> nat" where
  "batch_size batch = length (snd batch)"

fun num_div_pos :: "number \<Rightarrow> nat \<Rightarrow> number" where
  "num_div_pos (PyFloat a) n = PyFloat (fdiv_nat a n)"
| "num_div_pos (Tensor a) n = Tensor (fdiv_nat a n)"

definition sum_losses :: "variant \<Rightarrow> pyfloat list \<Rightarrow> number" where
  "sum_losses v losses = foldl num_add (PyFloat (Fin 0.0)) (map (loss_term v) losses)"

definition mean_loss :: "variant \<Rightarrow> pyfloat list \<Rightarrow> number" where
  "mean_loss v losses = num_div_pos (sum_losses v losses) (length losses)"

section \<open>Properties of early stopping\<close>

lemma float64_limit_large: "1000 < float64_limit"
  by (simp add: float64_limit_def)

lemma finite_sum_small:
  "\<bar>a + b\<bar> \<le> 1000 \<Longrightarrow> finite_sum float64_limit a b = Fin (a + b)"
  using float64_limit_large by (auto simp: finite_sum_def)

lemma finite_sum_cases:
  "finite_sum m a b = PosInf \<and> \<bar>a\<bar> < m \<and> \<bar>b\<bar> < m \<and> m \<le> a + b
   \<or> finite_sum m a b = NegInf \<and> \<bar>a\<bar> < m \<and> \<bar>b\<bar> < m \<and> a + b \<le> - m
   \<or> finite_sum m a b = Fin (a + b)"
  by (auto simp: finite_sum_def)

lemma flt_fge_exclusive: "flt a b \<Longrightarrow> \<not> fge a b"
  by (cases a; cases b) auto

lemma flt_or_fge_or_nan: "flt a b \<or> fge a b \<or> is_nan a \<or> is_nan b"
  by (cases a; cases b) auto

lemma nan_incomparable: "is_nan a \<or> is_nan b \<Longrightarrow> \<not> flt a b \<and> \<not> fge a b"
  by (cases a; cases b) auto

text \<open>
  C4. A fresh instance with \<open>tolerance = 3\<close> and \<open>min_delta = 0.0\<close>, fed the validation losses
  1.0, 0.9, 0.95, 0.95, 0.95 in this order, answers False, False, False, False, True.
\<close>

theorem early_stopping_scenario:
  "fst (feed (EarlyStopping 3 (Fin 0.0))
          [Fin 1.0, Fin 0.9, Fin 0.95, Fin 0.95, Fin 0.95])
   = [False, False, False, False, True]"
  by (simp add: EarlyStopping_def early_stop_check_def finite_sum_small)

lemma fst_feed_Cons:
  "fst (feed s (v # vs)) = fst (early_stop_check s v) # fst (feed (snd (early_stop_check s v)) vs)"
  by (simp add: case_prod_unfold)

lemma snd_feed_Cons:
  "snd (feed s (v # vs)) = snd (feed (snd (early_stop_check s v)) vs)"
  by (simp add: case_prod_unfold)

lemma fst_feed_append:
  "fst (feed s (vs @ ws)) = fst (feed s vs) @ fst (feed (snd (feed s vs)) ws)"
  by (induction vs arbitrary: s) (simp_all only: append.simps fst_feed_Cons snd_feed_Cons feed.simps(1) fst_conv snd_conv)

lemma snd_feed_append:
  "snd (feed s (vs @ ws)) = snd (feed (snd (feed s vs)) ws)"
  by (induction vs arbitrary: s) (simp_all only: append.simps snd_feed_Cons feed.simps(1) snd_conv)

lemma branches_append:
  "branches s (vs @ ws) = branches s vs @ branches (snd (feed s vs)) ws"
  by (induction vs arbitrary: s) (simp_all add: snd_feed_Cons del: feed.simps(2))

lemma length_feed: "length (fst (feed s vs)) = length vs"
  by (induction vs arbitrary: s) (simp_all add: fst_feed_Cons del: feed.simps(2))

lemma feed_keeps_parameters:
  "tolerance (snd (feed s vs)) = tolerance s \<and> min_delta (snd (feed s vs)) = min_delta s"
  by (induction vs arbitrary: s)
     (simp_all add: snd_feed_Cons early_stop_check_def Let_def del: feed.simps(2))

lemma streak_snoc:
  "streak (os @ [b]) =
     (case b of Improved \<Rightarrow> 0 | NotImproved \<Rightarrow> Suc (streak os) | Neither \<Rightarrow> streak os)"
  by (cases b) (simp_all add: streak_def since_improvement_def)

lemma counter_after_call:
  "counter (snd (early_stop_check s v)) =
     (case branch s v of Improved \<Rightarrow> 0 | NotImproved \<Rightarrow> counter s + 1 | Neither \<Rightarrow> counter s)"
  by (simp add: early_stop_check_def branch_def Let_def)

lemma counter_feed:
  "counter (snd (feed s vs)) =
     (if Improved \<in> set (branches s vs) then 0 else counter s) + int (streak (branches s vs))"
proof (induction vs rule: rev_induct)
  case Nil
  show ?case by (simp add: streak_def since_improvement_def)
next
  case (snoc v vs)
  show ?case
    using snoc.IH
    by (cases "branch (snd (feed s vs)) v")
       (simp_all add: snd_feed_append snd_feed_Cons branches_append streak_snoc
          counter_after_call del: feed.simps(2))
qed

lemma best_after_call:
  assumes "fge (min_delta s) (Fin 0)"
  shows "min_validation_loss (snd (early_stop_check s v)) = min_validation_loss s
       \<or> (min_validation_loss (snd (early_stop_check s v)) = v \<and> flt v (min_validation_loss s))"
proof -
  have "flt v b" if "fge d (Fin 0)" "flt (fadd v d) b" for d b
    using that
    by (cases v; cases d; cases b) (auto simp: finite_sum_def split: if_splits)
  with assms show ?thesis
    by (auto simp: early_stop_check_def Let_def)
qed

lemma feed_take_Suc:
  "i < length vs \<Longrightarrow>
   snd (feed s (take (Suc i) vs)) = snd (early_stop_check (snd (feed s (take i vs))) (vs ! i))"
  by (simp add: take_Suc_conv_app_nth snd_feed_append snd_feed_Cons del: feed.simps(2))

text \<open>
  C1 (as stated). The specification's transition has only two cases. The code has three: a
  call on a NaN loss takes neither the \<open>if\<close> nor the \<open>elif\<close>, so the counter stays where
  it is, while the specification's transition would count the call.
\<close>

theorem early_stop_check_nan_counterexample:
  "early_stop_check (EarlyStopping 3 (Fin 0.0)) NaN
     \<noteq> early_stop_spec (EarlyStopping 3 (Fin 0.0)) NaN"
  by (simp add: early_stop_check_def early_stop_spec_def EarlyStopping_def)

text \<open>
  C1 (amended). For every call of \<open>early_stop_check\<close> with a new validation loss \<open>v\<close>:
  if \<open>v + min_delta < best_loss\<close> then \<open>best_loss\<close> is set to \<open>v\<close>, the counter is reset to 0
  and False is returned; otherwise, if \<open>v + min_delta\<close> or \<open>best_loss\<close> is NaN, nothing changes
  and False is returned; otherwise the counter is incremented by 1 and True is returned if
  and only if the incremented counter is at least the tolerance. The tolerance and
  \<open>min_delta\<close> are never modified.
\<close>

theorem early_stop_check_transition: "early_stop_check self v =
     (if flt (fadd v (min_delta self)) (min_validation_loss self) then
        (False, self\<lparr>min_validation_loss := v, counter := 0\<rparr>)
      else if is_nan (fadd v (min_delta self)) \<or> is_nan (min_validation_loss self) then
        (False, self)
      else (tolerance self \<le> counter self + 1, self\<lparr>counter := counter self + 1\<rparr>))"
  using flt_or_fge_or_nan [of "fadd v (min_delta self)" "min_validation_loss self"]
        nan_incomparable [of "fadd v (min_delta self)" "min_validation_loss self"]
  by (auto simp: early_stop_check_def Let_def)

theorem early_stop_check_transition_witness:
  "early_stop_check (EarlyStopping 1 (Fin 0.0)\<lparr>min_validation_loss := Fin 1.0\<rparr>) (Fin 2.0)
     = (True, EarlyStopping 1 (Fin 0.0)\<lparr>min_validation_loss := Fin 1.0, counter := 1\<rparr>)"
  using early_stop_check_transition
          [of "EarlyStopping 1 (Fin 0.0)\<lparr>min_validation_loss := Fin 1.0\<rparr>" "Fin 2.0"]
  by (simp add: EarlyStopping_def finite_sum_small)

text \<open>
  C5 (as stated). With \<open>tolerance = 3\<close> and \<open>min_delta = 0.0\<close>, a constant sequence of three
  losses raises no stop signal: the first call is an improvement on the initial
  \<open>best_loss = +infinity\<close>, so only two calls are non-improving.
\<close>

theorem constant_losses_counterexample:
  "fst (feed (EarlyStopping 3 (Fin 0.0)) [Fin 1.0, Fin 1.0, Fin 1.0]) = [False, False, False]"
  by (simp add: early_stop_check_def EarlyStopping_def finite_sum_small)

lemma stall_on_equal:
  assumes "0 \<le> d" "min_delta s = Fin d" "min_validation_loss s = Fin c"
  shows "early_stop_check s (Fin c) =
           (tolerance s \<le> counter s + 1, s\<lparr>counter := counter s + 1\<rparr>)"
proof -
  from assms(1) finite_sum_cases [of float64_limit c d]
  have "\<not> flt (fadd (Fin c) (Fin d)) (Fin c) \<and> fge (fadd (Fin c) (Fin d)) (Fin c)"
    by auto
  with assms show ?thesis by (simp add: early_stop_check_def Let_def)
qed

lemma feed_constant:
  assumes "0 \<le> d" "min_delta s = Fin d" "min_validation_loss s = Fin c"
    and "counter s + int m < tolerance s"
  shows "feed s (replicate m (Fin c)) = (replicate m False, s\<lparr>counter := counter s + int m\<rparr>)"
  using assms
proof (induction m arbitrary: s)
  case 0
  then show ?case by simp
next
  case (Suc m)
  let ?s' = "s\<lparr>counter := counter s + 1\<rparr>"
  have step: "early_stop_check s (Fin c) = (False, ?s')"
    using Suc.prems by (simp add: stall_on_equal)
  have "feed ?s' (replicate m (Fin c)) = (replicate m False, ?s'\<lparr>counter := counter ?s' + int m\<rparr>)"
    using Suc.prems by (intro Suc.IH) simp_all
  with step show ?case by (simp add: add.assoc)
qed

lemma constant_losses_overflow:
  "fst (feed (EarlyStopping 1 (Fin (2 ^ 1023))) [Fin (2 ^ 1023), Fin (2 ^ 1023)]) = [True, True]"
  by (simp add: early_stop_check_def EarlyStopping_def finite_sum_def float64_limit_def)

text \<open>
  C5 (amended). For a tolerance of at least 1, a finite \<open>min_delta >= 0\<close> and a constant
  sequence of a finite loss \<open>c\<close> of length \<open>tolerance + 1\<close>, fed to a fresh instance, where
  the sum \<open>c + min_delta\<close> does not overflow to +infinity (it is below \<open>2^1024 - 2^970\<close>): the
  first \<open>tolerance\<close> calls return False and the last call, which sees the \<open>tolerance\<close>-th
  repeated (non-improving) value, returns True. (When the sum overflows, the first call is
  already non-improving, as in the lemma above.)
\<close>

theorem constant_losses_stop:
  assumes "1 \<le> tol" "0 \<le> d" "c + d < float64_limit"
  shows "fst (feed (EarlyStopping tol (Fin d)) (replicate (nat tol + 1) (Fin c)))
         = replicate (nat tol) False @ [True]"
proof -
  define n where "n = nat tol - 1"
  have n: "nat tol = Suc n" and tol: "tol = int n + 1"
    using assms by (simp_all add: n_def)
  define s1 where "s1 = (EarlyStopping tol (Fin d))\<lparr>min_validation_loss := Fin c, counter := 0\<rparr>"
  define s2 where "s2 = s1\<lparr>counter := counter s1 + int n\<rparr>"
  have below: "flt (fadd (Fin c) (Fin d)) PosInf"
    using assms(3) finite_sum_cases [of float64_limit c d] by auto
  have first: "early_stop_check (EarlyStopping tol (Fin d)) (Fin c) = (False, s1)"
    using below by (simp add: early_stop_check_def EarlyStopping_def s1_def)
  have middle: "feed s1 (replicate n (Fin c)) = (replicate n False, s2)"
    unfolding s2_def
    using assms tol by (intro feed_constant [where d = d]) (simp_all add: EarlyStopping_def s1_def)
  have last: "early_stop_check s2 (Fin c) = (True, s2\<lparr>counter := counter s2 + 1\<rparr>)"
    using assms tol by (simp add: stall_on_equal [where d = d] EarlyStopping_def s1_def s2_def)
  have shape: "replicate (nat tol + 1) (Fin c) = Fin c # (replicate n (Fin c) @ [Fin c])"
    by (simp add: n replicate_append_same)
  have "fst (feed (EarlyStopping tol (Fin d)) (replicate (nat tol + 1) (Fin c)))
          = False # (replicate n False @ [True])"
    unfolding shape
    by (simp add: fst_feed_Cons fst_feed_append first middle last del: feed.simps(2))
  also have "\<dots> = replicate (nat tol) False @ [True]"
    by (simp add: n)
  finally show ?thesis .
qed

theorem constant_losses_stop_witness:
  "(1::int) \<le> 2 \<and> (0::real) \<le> 0.5 \<and> (1::real) + 0.5 < float64_limit \<and>
   fst (feed (EarlyStopping 2 (Fin 0.5)) (replicate (nat 2 + 1) (Fin 1)))
     = replicate (nat 2) False @ [True]"
proof -
  have small: "(1::real) + 0.5 < float64_limit"
    using float64_limit_large by simp
  from constant_losses_stop [of 2 "0.5" 1] small show ?thesis by simp
qed

text \<open>
  C6 (as stated). With \<open>tolerance = 1\<close> and \<open>min_delta = 1.0\<close>, the strictly decreasing
  sequence 1.0, 0.5 raises the stop signal at its second loss: 0.5 + 1.0 is not below 1.0.
\<close>

theorem decreasing_losses_counterexample:
  "fst (feed (EarlyStopping 1 (Fin 1.0)) [Fin 1.0, Fin 0.5]) = [False, True]"
  by (simp add: early_stop_check_def EarlyStopping_def finite_sum_small)

lemma flt_shift:
  assumes "d \<le> 0" "flt v' v"
  shows "flt (fadd v' (Fin d)) v"
  using assms
  by (cases v'; cases v) (auto simp: finite_sum_def split: if_splits)

lemma feed_improving:
  assumes "d \<le> 0" "min_delta s = Fin d"
    and "sorted_wrt (\<lambda>a b. flt b a) vs"
    and "\<forall>v \<in> set vs. flt (fadd v (Fin d)) (min_validation_loss s)"
  shows "True \<notin> set (fst (feed s vs))"
  using assms
proof (induction vs arbitrary: s)
  case Nil
  then show ?case by simp
next
  case (Cons v vs)
  let ?s' = "s\<lparr>min_validation_loss := v, counter := 0\<rparr>"
  have step: "early_stop_check s v = (False, ?s')"
    using Cons.prems by (simp add: early_stop_check_def)
  have "\<forall>w \<in> set vs. flt (fadd w (Fin d)) (min_validation_loss ?s')"
    using Cons.prems by (auto intro: flt_shift)
  then have "True \<notin> set (fst (feed ?s' vs))"
    using Cons.prems by (intro Cons.IH) simp_all
  with step show ?case by (simp add: fst_feed_Cons del: feed.simps(2))
qed

text \<open>
  C6 (amended). For a finite \<open>min_delta <= 0\<close> and every strictly decreasing sequence of
  validation losses that contains neither +infinity nor NaN, fed to a fresh instance, no
  call of \<open>early_stop_check\<close> returns True.
\<close>

theorem decreasing_losses_never_stop:
  assumes "d \<le> 0" "sorted_wrt (\<lambda>a b. flt b a) vs" "PosInf \<notin> set vs" "NaN \<notin> set vs"
  shows "True \<notin> set (fst (feed (EarlyStopping tol (Fin d)) vs))"
proof -
  have "\<forall>v \<in> set vs. flt (fadd v (Fin d)) PosInf"
  proof
    fix v assume "v \<in> set vs"
    with assms have "v \<noteq> PosInf" "v \<noteq> NaN" by auto
    then show "flt (fadd v (Fin d)) PosInf"
    proof (cases v)
      case (Fin x)
      with assms(1) finite_sum_cases [of float64_limit x d] show ?thesis by auto
    qed auto
  qed
  with assms show ?thesis
    by (intro feed_improving [where d = d]) (simp_all add: EarlyStopping_def)
qed

theorem decreasing_losses_never_stop_witness:
  "(0::real) \<le> 0 \<and> sorted_wrt (\<lambda>a b. flt b a) [Fin 3, Fin 2, NegInf] \<and>
   PosInf \<notin> set [Fin 3, Fin 2, NegInf] \<and> NaN \<notin> set [Fin 3, Fin 2, NegInf] \<and>
   True \<notin> set (fst (feed (EarlyStopping 1 (Fin 0)) [Fin 3, Fin 2, NegInf]))"
  using decreasing_losses_never_stop [of 0 "[Fin 3, Fin 2, NegInf]" 1] by simp

lemma since_improvement_snoc:
  "since_improvement (os @ [b]) = (if b = Improved then [] else since_improvement os @ [b])"
  by (simp add: since_improvement_def)

lemma streak_without_neither:
  "Neither \<notin> set os \<Longrightarrow> streak os = length (since_improvement os)"
proof (induction os rule: rev_induct)
  case Nil
  show ?case by (simp add: streak_def since_improvement_def)
next
  case (snoc b os)
  then have "streak os = length (since_improvement os)" by simp
  with snoc.prems show ?case
    by (cases b) (simp_all add: streak_snoc since_improvement_snoc)
qed

lemma branch_comparable:
  assumes "is_finite (min_delta s)" "v \<noteq> NaN" "\<not> is_nan (min_validation_loss s)"
  shows "branch s v \<noteq> Neither"
proof -
  from assms(1) obtain d where d: "min_delta s = Fin d" by (cases "min_delta s") auto
  have "\<not> is_nan (fadd v (Fin d))"
  proof (cases v)
    case (Fin x)
    with finite_sum_cases [of float64_limit x d] show ?thesis by auto
  qed (use assms(2) in auto)
  with assms(3) d flt_or_fge_or_nan [of "fadd v (Fin d)" "min_validation_loss s"]
  show ?thesis by (auto simp: branch_def)
qed

lemma best_never_nan:
  assumes "\<not> is_nan (min_validation_loss s)"
  shows "\<not> is_nan (min_validation_loss (snd (early_stop_check s v)))"
proof -
  have "\<not> is_nan v" if "flt (fadd v d) b" for d b
    using that by (cases v) auto
  with assms show ?thesis by (auto simp: early_stop_check_def Let_def)
qed

lemma branches_without_neither:
  assumes "is_finite (min_delta s)" "NaN \<notin> set vs" "\<not> is_nan (min_validation_loss s)"
  shows "Neither \<notin> set (branches s vs)"
  using assms
proof (induction vs arbitrary: s)
  case Nil
  show ?case by simp
next
  case (Cons v vs)
  let ?s' = "snd (early_stop_check s v)"
  have "min_delta ?s' = min_delta s"
    by (simp add: early_stop_check_def Let_def)
  with Cons.prems have "Neither \<notin> set (branches ?s' vs)"
    by (intro Cons.IH) (simp_all add: best_never_nan)
  moreover from Cons.prems have "branch s v \<noteq> Neither"
    by (intro branch_comparable) auto
  ultimately show ?case by simp
qed

text \<open>
  C9 (as stated). Both halves fail. With \<open>min_delta = -1.0\<close> the loss 1.5 after the loss 1.0
  counts as an improvement (1.5 - 1.0 < 1.0), and \<open>min_validation_loss\<close> rises from 1.0 to
  1.5. And after the losses 1.0, NaN the counter is 0, although one call that did not
  improve has been made since the last improvement.
\<close>

theorem best_loss_counterexample:
  "flt (min_validation_loss (snd (feed (EarlyStopping 3 (Fin (- 1.0))) [Fin 1.0])))
       (min_validation_loss (snd (feed (EarlyStopping 3 (Fin (- 1.0))) [Fin 1.0, Fin 1.5])))
   \<and> counter (snd (feed (EarlyStopping 3 (Fin 0.0)) [Fin 1.0, NaN]))
       \<noteq> int (length (since_improvement (branches (EarlyStopping 3 (Fin 0.0)) [Fin 1.0, NaN])))"
  by (simp add: early_stop_check_def EarlyStopping_def finite_sum_small branch_def
        since_improvement_def)

text \<open>
  C9 (amended). Across every sequence of \<open>early_stop_check\<close> calls on a fresh instance:
  when \<open>min_delta >= 0\<close>, each call either leaves \<open>min_validation_loss\<close> unchanged or lowers
  it to the new loss; for every \<open>min_delta\<close>, the counter equals the number of calls since
  the last improvement (or since construction) that took the non-improving \<open>elif\<close> branch;
  and when \<open>min_delta\<close> is finite and no loss is NaN, every call since the last improvement
  took that branch, so that the counter equals the number of consecutive non-improving
  calls since the last improvement (or since construction).
\<close>

theorem best_loss_and_counter_invariant:
  "(fge md (Fin 0) \<longrightarrow>
      (\<forall>i < length vs.
          min_validation_loss (snd (feed (EarlyStopping tol md) (take (Suc i) vs)))
            = min_validation_loss (snd (feed (EarlyStopping tol md) (take i vs)))
        \<or> (min_validation_loss (snd (feed (EarlyStopping tol md) (take (Suc i) vs))) = vs ! i
           \<and> flt (vs ! i)
                (min_validation_loss (snd (feed (EarlyStopping tol md) (take i vs)))))))
   \<and> counter (snd (feed (EarlyStopping tol md) vs))
       = int (streak (branches (EarlyStopping tol md) vs))
   \<and> (is_finite md \<and> NaN \<notin> set vs \<longrightarrow>
        counter (snd (feed (EarlyStopping tol md) vs))
          = int (length (since_improvement (branches (EarlyStopping tol md) vs))))"
proof (intro conjI impI allI)
  fix i
  assume md: "fge md (Fin 0)" and i: "i < length vs"
  let ?s = "snd (feed (EarlyStopping tol md) (take i vs))"
  have "min_delta ?s = md"
    by (simp add: feed_keeps_parameters EarlyStopping_def)
  with md have "fge (min_delta ?s) (Fin 0)" by simp
  from best_after_call [OF this, of "vs ! i"] show
    "min_validation_loss (snd (feed (EarlyStopping tol md) (take (Suc i) vs)))
            = min_validation_loss ?s
        \<or> (min_validation_loss (snd (feed (EarlyStopping tol md) (take (Suc i) vs))) = vs ! i
           \<and> flt (vs ! i) (min_validation_loss ?s))"
    by (simp only: feed_take_Suc [OF i])
next
  show count: "counter (snd (feed (EarlyStopping tol md) vs))
           = int (streak (branches (EarlyStopping tol md) vs))"
    by (simp add: counter_feed EarlyStopping_def)
  assume "is_finite md \<and> NaN \<notin> set vs"
  then have "Neither \<notin> set (branches (EarlyStopping tol md) vs)"
    by (intro branches_without_neither) (simp_all add: EarlyStopping_def)
  then show "counter (snd (feed (EarlyStopping tol md) vs))
          = int (length (since_improvement (branches (EarlyStopping tol md) vs)))"
    using count by (simp add: streak_without_neither)
qed

theorem best_loss_and_counter_invariant_witness:
  "fge (Fin 0.5) (Fin 0) \<and> is_finite (Fin 0.5) \<and> NaN \<notin> set [Fin 2, Fin 1, Fin 3] \<and>
   (min_validation_loss (snd (feed (EarlyStopping 3 (Fin 0.5)) (take (Suc 1) [Fin 2, Fin 1, Fin 3])))
      = min_validation_loss (snd (feed (EarlyStopping 3 (Fin 0.5)) (take 1 [Fin 2, Fin 1, Fin 3])))
    \<or> (min_validation_loss (snd (feed (EarlyStopping 3 (Fin 0.5)) (take (Suc 1) [Fin 2, Fin 1, Fin 3])))
          = [Fin 2, Fin 1, Fin 3] ! 1
       \<and> flt ([Fin 2, Fin 1, Fin 3] ! 1)
            (min_validation_loss (snd (feed (EarlyStopping 3 (Fin 0.5)) (take 1 [Fin 2, Fin 1, Fin 3]))))))
   \<and> counter (snd (feed (EarlyStopping 3 (Fin 0.5)) [Fin 2, Fin 1, Fin 3]))
       = int (streak (branches (EarlyStopping 3 (Fin 0.5)) [Fin 2, Fin 1, Fin 3]))
   \<and> counter (snd (feed (EarlyStopping 3 (Fin 0.5)) [Fin 2, Fin 1, Fin 3]))
       = int (length (since_improvement (branches (EarlyStopping 3 (Fin 0.5)) [Fin 2, Fin 1, Fin 3])))"
proof -
  have md: "fge (Fin 0.5) (Fin 0)" by simp
  have fin: "is_finite (Fin 0.5) \<and> NaN \<notin> set [Fin 2, Fin 1, Fin 3]" by simp
  have len: "1 < length [Fin 2, Fin 1, Fin 3 :: pyfloat]" by simp
  note inv = best_loss_and_counter_invariant [of "Fin 0.5" "[Fin 2, Fin 1, Fin 3]" 3]
  from inv [THEN conjunct1, rule_format, OF md len]
       inv [THEN conjunct2, THEN conjunct1]
       inv [THEN conjunct2, THEN conjunct2, rule_format, OF fin] md fin
  show ?thesis by blast
qed

section \<open>Properties of the train/validation split\<close>

lemma train_size_div: "train_size n = 4 * n div 5"
proof -
  have "(0.8::real) * real n = real (4 * n) / real 5" by simp
  then have "\<lfloor>(0.8::real) * real n\<rfloor> = int (4 * n div 5)"
    by (simp only: floor_divide_of_nat_eq)
  then show ?thesis by (simp add: train_size_def)
qed

lemma train_size_le: "train_size n \<le> n"
  by (simp add: train_size_div)

text \<open>
  C7. For a training dataset of size \<open>n\<close>, whatever permutation of the indices
  \<open>random_split\<close> draws, the 80/20 split succeeds and yields two disjoint index sets that
  together are all the indices, whose sizes sum to \<open>n\<close>: the training set has
  \<open>floor (0.8 * n)\<close> elements and the validation set \<open>n - floor (0.8 * n)\<close>. The split is the
  same code in the three scripts.
\<close>

theorem split_80_20:
  assumes "distinct perm" "set perm = {0..<n}"
  shows "split_train_val perm n = Inr [take (train_size n) perm, drop (train_size n) perm]
       \<and> set (take (train_size n) perm) \<inter> set (drop (train_size n) perm) = {}
       \<and> set (take (train_size n) perm) \<union> set (drop (train_size n) perm) = {0..<n}
       \<and> length (take (train_size n) perm) + length (drop (train_size n) perm) = n
       \<and> length (take (train_size n) perm) = nat \<lfloor>0.8 * real n\<rfloor>
       \<and> length (drop (train_size n) perm) = n - nat \<lfloor>0.8 * real n\<rfloor>"
proof -
  have len: "length perm = n"
    using assms distinct_card [of perm] by simp
  have sizes: "train_size n + val_size n = n"
    using train_size_le [of n] by (simp add: val_size_def)
  have split: "split_train_val perm n = Inr [take (train_size n) perm, drop (train_size n) perm]"
    using sizes len by (simp add: split_train_val_def random_split_def val_size_def)
  have disj: "set (take (train_size n) perm) \<inter> set (drop (train_size n) perm) = {}"
    using assms(1) by (rule set_take_disj_set_drop_if_distinct) simp
  have un: "set (take (train_size n) perm) \<union> set (drop (train_size n) perm) = {0..<n}"
    using assms(2) by (simp add: set_append [symmetric] del: set_append)
  have l1: "length (take (train_size n) perm) = nat \<lfloor>0.8 * real n\<rfloor>"
    using len train_size_le [of n] by (simp add: train_size_def)
  have l2: "length (drop (train_size n) perm) = n - nat \<lfloor>0.8 * real n\<rfloor>"
    using len by (simp add: train_size_def)
  have l3: "length (take (train_size n) perm) + length (drop (train_size n) perm) = n"
    using len by simp
  from split disj un l1 l2 l3 show ?thesis by blast
qed

theorem split_80_20_witness:
  "distinct [3, 0, 4, 1, 2::nat] \<and> set [3, 0, 4, 1, 2::nat] = {0..<5} \<and>
   split_train_val [3, 0, 4, 1, 2] 5 = Inr [[3, 0, 4, 1], [2]] \<and>
   set [3, 0, 4, 1::nat] \<inter> set [2] = {} \<and>
   length [3, 0, 4, 1::nat] + length [2::nat] = 5"
proof -
  have d: "distinct [3, 0, 4, 1, 2::nat]" by simp
  have s: "set [3, 0, 4, 1, 2::nat] = {0..<5}" by (auto simp: atLeastLessThan_def)
  have t: "train_size 5 = 4" by (simp add: train_size_def)
  from split_80_20 [OF d s] d s show ?thesis by (simp add: t)
qed

section \<open>Properties of the transform pipelines\<close>

lemma test_transform_deterministic: "deterministic (partition_transform v Test)"
  by (cases v) (simp_all add: deterministic_def)

lemma simple_validation_deterministic: "deterministic (partition_transform Simple_cnn Validation)"
  by (simp add: deterministic_def)

text \<open>
  C2. The transform applied to test samples draws no random numbers in any of the three
  scripts, and neither does the one applied to validation samples in simple\_cnn.py (the
  two lemmas above). In soph\_cnn.py and transfer\_cnn.py, however, the validation samples
  go through \<open>transform_train\<close>, which contains \<open>RandomHorizontalFlip\<close> and
  \<open>RandomRotation\<close>: the validation pipeline of these two scripts is not deterministic.
\<close>

theorem validation_transform_is_random: "\<not> deterministic (partition_transform Soph_cnn Validation)
   \<and> \<not> deterministic (partition_transform Transfer_cnn Validation)"
  by (simp add: deterministic_def)

section \<open>Properties of checkpointing\<close>

lemma save_if_best_cases:
  "save_if_best st (val_acc, params) =
     (if best_val_acc st < val_acc
      then st\<lparr>best_val_acc := val_acc, best_model_pth := Some params, n_saves := n_saves st + 1\<rparr>
      else st)"
  by (simp add: save_if_best_def)

lemma training_loop_Nil: "training_loop st [] = st"
  by (simp add: training_loop_def)


lemma training_loop_snoc: "training_loop st (es @ [e]) = save_if_best (training_loop st es) e"
  by (simp add: training_loop_def)

lemma best_val_acc_save: "best_val_acc (save_if_best st e) = max (best_val_acc st) (fst e)"
  by (cases e) (simp add: save_if_best_cases)

lemma best_val_acc_loop:
  "best_val_acc (training_loop st es) = Max (set (best_val_acc st # map fst es))"
proof (induction es rule: rev_induct)
  case Nil
  show ?case by (simp add: training_loop_Nil)
next
  case (snoc e es)
  have "Max (set (best_val_acc st # map fst (es @ [e])))
          = max (fst e) (Max (set (best_val_acc st # map fst es)))"
    by (simp add: insert_commute)
  with snoc show ?case
    by (simp only: training_loop_snoc best_val_acc_save max.commute)
qed

lemma before_epoch_Suc:
  "i < length epochs \<Longrightarrow>
   before_epoch file epochs (Suc i) = save_if_best (before_epoch file epochs i) (epochs ! i)"
  by (simp add: before_epoch_def take_Suc_conv_app_nth training_loop_snoc)

text \<open>
  C3. In simple\_cnn.py and soph\_cnn.py, at every epoch \<open>i\<close> of a run, the recorded best
  accuracy is the maximum of the initial 0.0 and the validation accuracies of the earlier
  epochs; \<open>best_model.pth\<close> is written in this epoch if and only if the epoch's validation
  accuracy is strictly greater than it, and then the recorded best becomes the new
  accuracy and the file holds the current parameters; otherwise nothing changes.
\<close>

theorem checkpoint_iff_strictly_better:
  assumes "i < length epochs"
  shows "best_val_acc (before_epoch file epochs i) = Max (set (0 # map fst (take i epochs)))
       \<and> (n_saves (before_epoch file epochs (Suc i)) = n_saves (before_epoch file epochs i) + 1
            \<longleftrightarrow> best_val_acc (before_epoch file epochs i) < fst (epochs ! i))
       \<and> (best_val_acc (before_epoch file epochs i) < fst (epochs ! i) \<longrightarrow>
            before_epoch file epochs (Suc i)
              = (before_epoch file epochs i)
                  \<lparr>best_val_acc := fst (epochs ! i),
                   best_model_pth := Some (snd (epochs ! i)),
                   n_saves := n_saves (before_epoch file epochs i) + 1\<rparr>)
       \<and> (\<not> best_val_acc (before_epoch file epochs i) < fst (epochs ! i) \<longrightarrow>
            before_epoch file epochs (Suc i) = before_epoch file epochs i)"
proof -
  have best: "best_val_acc (before_epoch file epochs i) = Max (set (0 # map fst (take i epochs)))"
    by (simp add: before_epoch_def best_val_acc_loop start_training_def)
  have step: "before_epoch file epochs (Suc i)
                = save_if_best (before_epoch file epochs i) (fst (epochs ! i), snd (epochs ! i))"
    using assms by (simp add: before_epoch_Suc)
  show ?thesis
    unfolding step save_if_best_cases using best by simp
qed

theorem checkpoint_iff_strictly_better_witness:
  "(2::nat) < length [(10, 1), (5, 2), (20, 3::nat)] \<and>
   best_val_acc (before_epoch None [(10, 1), (5, 2), (20, 3::nat)] 2) = 10 \<and>
   before_epoch None [(10, 1), (5, 2), (20, 3::nat)] (Suc 2)
     = \<lparr>best_val_acc = 20, best_model_pth = Some 3, n_saves = 2\<rparr>"
  using checkpoint_iff_strictly_better [of 2 "[(10, 1), (5, 2), (20, 3::nat)]" None]
  by (simp add: before_epoch_def training_loop_def save_if_best_def start_training_def)










section \<open>Properties of validation\<close>

lemma float32_limit_large: "1000 < float32_limit"
  by (simp add: float32_limit_def)

lemma finite_sum_small32:
  "\<bar>a + b\<bar> \<le> 1000 \<Longrightarrow> finite_sum float32_limit a b = Fin (a + b)"
  using float32_limit_large by (auto simp: finite_sum_def)

lemma length_forward_passes:
  "length (fst (forward_passes forward model batches)) = length batches"
  by (induction batches arbitrary: model) (simp_all add: case_prod_unfold)

lemma forward_passes_Cons:
  assumes "forward False model inputs = (outputs, model')"
  shows "forward_passes forward model ((inputs, labels) # rest)
           = (outputs # fst (forward_passes forward model' rest),
              snd (forward_passes forward model' rest))"
  using assms by (simp add: case_prod_unfold)

lemma true_div_pos: "0 < n \<Longrightarrow> true_div x n = Inr (num_div_pos x n)"
  by (cases x) simp_all

lemma validate_loop_result:
  assumes "0 < tot \<or> batches = [] \<or> snd (hd batches) \<noteq> []"
  shows "validate_loop v forward argmax criterion model batches (running_loss, correct, tot)
         = Inr (snd (forward_passes forward model batches),
                foldl num_add running_loss
                  (map (loss_term v)
                     (batch_losses criterion (fst (forward_passes forward model batches)) batches)),
                correct + sum_list
                  (batch_corrects argmax (fst (forward_passes forward model batches)) batches),
                tot + sum_list (map batch_size batches))"
  using assms
proof (induction batches arbitrary: model running_loss correct tot)
  case Nil
  show ?case by (simp add: batch_losses_def batch_corrects_def)
next
  case (Cons b batches)
  obtain inputs labels where b: "b = (inputs, labels)" by (cases b)
  obtain outputs model' where call: "forward False model inputs = (outputs, model')"
    by (cases "forward False model inputs")
  define outs where "outs = fst (forward_passes forward model' batches)"
  define loss where "loss = criterion outputs labels"
  define hits where "hits = correct_count (argmax outputs) labels"
  from Cons.prems b have pos: "0 < tot + length labels" by auto
  have passes: "forward_passes forward model (b # batches)
                  = (outputs # outs, snd (forward_passes forward model' batches))"
    unfolding b outs_def using call by (rule forward_passes_Cons [where forward = forward])
  have step: "validate_loop v forward argmax criterion model (b # batches)
                (running_loss, correct, tot)
              = validate_loop v forward argmax criterion model' batches
                  (num_add running_loss (loss_term v loss), correct + hits, tot + length labels)"
    using pos by (auto simp: b call Let_def loss_def hits_def)
  have rest: "validate_loop v forward argmax criterion model' batches
                (num_add running_loss (loss_term v loss), correct + hits, tot + length labels)
              = Inr (snd (forward_passes forward model' batches),
                     foldl num_add (num_add running_loss (loss_term v loss))
                       (map (loss_term v) (batch_losses criterion outs batches)),
                     correct + hits + sum_list (batch_corrects argmax outs batches),
                     tot + length labels + sum_list (map batch_size batches))"
    unfolding outs_def using pos by (intro Cons.IH) simp
  have losses: "batch_losses criterion (outputs # outs) (b # batches)
                  = loss # batch_losses criterion outs batches"
    by (simp add: batch_losses_def b loss_def)
  have corrects: "batch_corrects argmax (outputs # outs) (b # batches)
                  = hits # batch_corrects argmax outs batches"
    by (simp add: batch_corrects_def b hits_def)
  have size: "batch_size b = length labels"
    by (simp add: batch_size_def b)
  show ?case
    unfolding step rest passes fst_conv snd_conv losses corrects
    by (simp add: size add.assoc)
qed

lemma forward_passes_frame:
  assumes "\<forall>m inputs. \<not> training m \<longrightarrow>
             state_dict (snd (forward False m inputs)) = state_dict m
             \<and> \<not> training (snd (forward False m inputs))"
    and "\<not> training model"
  shows "state_dict (snd (forward_passes forward model batches)) = state_dict model
         \<and> \<not> training (snd (forward_passes forward model batches))"
  using assms(2)
proof (induction batches arbitrary: model)
  case Nil
  then show ?case by simp
next
  case (Cons b batches)
  obtain inputs labels where b: "b = (inputs, labels)" by (cases b)
  obtain outputs model' where call: "forward False model inputs = (outputs, model')"
    by (cases "forward False model inputs")
  from assms(1) Cons.prems call
  have kept: "state_dict model' = state_dict model" "\<not> training model'"
    by (metis snd_conv)+
  have "state_dict (snd (forward_passes forward model' batches)) = state_dict model'
        \<and> \<not> training (snd (forward_passes forward model' batches))"
    by (rule Cons.IH [OF kept(2)])
  with kept(1) show ?case
    unfolding b forward_passes_Cons [where forward = forward, OF call] by simp
qed

lemma sum_batch_size_pos:
  assumes "valloader \<noteq> []" "snd (hd valloader) \<noteq> []"
  shows "0 < sum_list (map batch_size valloader)"
  using assms by (cases valloader) (simp_all add: batch_size_def)

lemma validate_raises:
  assumes "valloader = [] \<or> snd (hd valloader) = []"
  shows "validate v forward argmax criterion model valloader = Inl ZeroDivisionError"
proof (cases valloader)
  case Nil
  then show ?thesis by (simp add: validate_def)
next
  case (Cons b rest)
  with assms obtain inputs where "b = (inputs, [])" by (cases b) auto
  with Cons show ?thesis by (simp add: validate_def split: prod.splits)
qed

lemma validate_returns:
  assumes "valloader \<noteq> []" "snd (hd valloader) \<noteq> []"
  shows "validate v forward argmax criterion model valloader
         = Inr (snd (forward_passes forward (model\<lparr>training := False\<rparr>) valloader),
                mean_loss v
                  (batch_losses criterion
                     (fst (forward_passes forward (model\<lparr>training := False\<rparr>) valloader))
                     valloader),
                100 * real (sum_list
                  (batch_corrects argmax
                     (fst (forward_passes forward (model\<lparr>training := False\<rparr>) valloader))
                     valloader))
                  / real (sum_list (map batch_size valloader)))"
proof -
  let ?model' = "model\<lparr>training := False\<rparr>"
  let ?outs = "fst (forward_passes forward ?model' valloader)"
  have loop: "validate_loop v forward argmax criterion ?model' valloader (PyFloat (Fin 0.0), 0, 0)
        = Inr (snd (forward_passes forward ?model' valloader),
               foldl num_add (PyFloat (Fin 0.0))
                 (map (loss_term v) (batch_losses criterion ?outs valloader)),
               0 + sum_list (batch_corrects argmax ?outs valloader),
               0 + sum_list (map batch_size valloader))"
    using assms by (intro validate_loop_result) simp
  have len: "length (batch_losses criterion ?outs valloader) = length valloader"
    by (simp add: batch_losses_def length_forward_passes)
  from assms have n: "0 < length valloader" by simp
  from assms have pos: "0 < sum_list (map batch_size valloader)"
    by (rule sum_batch_size_pos)
  show ?thesis
    unfolding validate_def loop using pos
    by (simp add: true_div_pos [OF n] mean_loss_def sum_losses_def len del: sum_list_eq_0_iff)
qed

text \<open>
  When no sum overflows, the mean is the arithmetic mean of the batch losses: a Python
  float in soph\_cnn.py and transfer\_cnn.py, a tensor in simple\_cnn.py.
\<close>

lemma foldl_fadd_finite:
  assumes "0 \<le> a" "\<forall>r \<in> set rs. 0 \<le> r" "a + sum_list rs < float64_limit"
  shows "foldl num_add (PyFloat (Fin a)) (map (\<lambda>r. PyFloat (Fin r)) rs)
           = PyFloat (Fin (a + sum_list rs))"
  using assms
proof (induction rs arbitrary: a)
  case Nil
  show ?case by simp
next
  case (Cons r rs)
  then have "0 \<le> r" "0 \<le> sum_list rs" by (simp_all add: sum_list_nonneg)
  with Cons.prems have "finite_sum float64_limit a r = Fin (a + r)"
    by (auto simp: finite_sum_def)
  moreover have "foldl num_add (PyFloat (Fin (a + r))) (map (\<lambda>r. PyFloat (Fin r)) rs)
                   = PyFloat (Fin (a + r + sum_list rs))"
    using Cons.prems by (intro Cons.IH) (simp_all add: add.assoc)
  ultimately show ?case by (simp add: add.assoc)
qed

lemma foldl_tadd_finite:
  assumes "0 \<le> a" "\<forall>r \<in> set rs. 0 \<le> r" "a + sum_list rs < float32_limit"
  shows "foldl num_add (Tensor (Fin a)) (map (\<lambda>r. Tensor (Fin r)) rs)
           = Tensor (Fin (a + sum_list rs))"
  using assms
proof (induction rs arbitrary: a)
  case Nil
  show ?case by simp
next
  case (Cons r rs)
  then have "0 \<le> r" "0 \<le> sum_list rs" by (simp_all add: sum_list_nonneg)
  with Cons.prems have "finite_sum float32_limit a r = Fin (a + r)"
    by (auto simp: finite_sum_def)
  moreover have "foldl num_add (Tensor (Fin (a + r))) (map (\<lambda>r. Tensor (Fin r)) rs)
                   = Tensor (Fin (a + r + sum_list rs))"
    using Cons.prems by (intro Cons.IH) (simp_all add: add.assoc)
  ultimately show ?case by (simp add: add.assoc)
qed

lemma mean_loss_finite:
  assumes "\<forall>r \<in> set rs. 0 \<le> r"
  shows "sum_list rs < float64_limit \<Longrightarrow>
           mean_loss Soph_cnn (map Fin rs) = PyFloat (Fin (sum_list rs / real (length rs)))"
    and "sum_list rs < float64_limit \<Longrightarrow>
           mean_loss Transfer_cnn (map Fin rs) = PyFloat (Fin (sum_list rs / real (length rs)))"
    and "sum_list rs < float32_limit \<Longrightarrow> rs \<noteq> [] \<Longrightarrow>
           mean_loss Simple_cnn (map Fin rs) = Tensor (Fin (sum_list rs / real (length rs)))"
proof -
  show "mean_loss Soph_cnn (map Fin rs) = PyFloat (Fin (sum_list rs / real (length rs)))"
    if "sum_list rs < float64_limit"
    using foldl_fadd_finite [of 0 rs] assms that
    by (simp add: mean_loss_def sum_losses_def comp_def)
  show "mean_loss Transfer_cnn (map Fin rs) = PyFloat (Fin (sum_list rs / real (length rs)))"
    if "sum_list rs < float64_limit"
    using foldl_fadd_finite [of 0 rs] assms that
    by (simp add: mean_loss_def sum_losses_def comp_def)
  show "mean_loss Simple_cnn (map Fin rs) = Tensor (Fin (sum_list rs / real (length rs)))"
    if small: "sum_list rs < float32_limit" and ne: "rs \<noteq> []"
  proof -
    from ne obtain r rs' where rs: "rs = r # rs'" by (cases rs) auto
    with assms small have r: "0 \<le> r" "0 \<le> sum_list rs'" "r + sum_list rs' < float32_limit"
      by (simp_all add: sum_list_nonneg)
    then have first: "finite_sum float32_limit 0 r = Fin r"
      by (auto simp: finite_sum_def)
    have "foldl num_add (Tensor (Fin r)) (map (\<lambda>r. Tensor (Fin r)) rs')
            = Tensor (Fin (r + sum_list rs'))"
      using assms r rs by (intro foldl_tadd_finite) simp_all
    with first show ?thesis
      by (simp add: mean_loss_def sum_losses_def comp_def rs)
  qed
qed

text \<open>
  C8 (as stated). Calling the model runs code of the model, which is free to write its own
  parameters: with a forward pass that increments the parameter, the parameter is 2 after
  \<open>validate\<close> and was 1 before. And on a loader without batches \<open>validate\<close> does not return a
  pair: it raises \<open>ZeroDivisionError\<close>.
\<close>

theorem validate_counterexample:
  "validate Soph_cnn
     (\<lambda>grad m xs. (map (\<lambda>x. x + state_dict m) xs, m\<lparr>state_dict := state_dict m + 1\<rparr>))
     (\<lambda>out. out) (\<lambda>out labels. Fin (real (length labels)))
     \<lparr>state_dict = 1::nat, training = True\<rparr> [([0, 1], [1, 5])]
   = Inr (\<lparr>state_dict = 2, training = False\<rparr>, PyFloat (Fin 2), 50)
   \<and> validate Soph_cnn
     (\<lambda>grad m xs. (map (\<lambda>x. x + state_dict m) xs, m\<lparr>state_dict := state_dict m + 1\<rparr>))
     (\<lambda>out. out) (\<lambda>out labels. Fin (real (length labels)))
     \<lparr>state_dict = 1::nat, training = True\<rparr> []
   = Inl ZeroDivisionError"
  by (simp add: validate_def correct_count_def finite_sum_small)

text \<open>
  C8 (amended). In each of the three scripts \<open>validate\<close> switches the model to evaluation
  mode and then only calls its forward pass, once per batch, with gradients off: there is
  no backward pass and no optimizer step. It returns exactly when the loader has a first
  batch and that batch is not empty (otherwise a division by zero is raised), and then it
  returns the mean of the batch losses (a Python float in soph\_cnn.py and
  transfer\_cnn.py, a tensor in simple\_cnn.py) and the accuracy \<open>100 * correct / total\<close>,
  where \<open>correct\<close> and \<open>total\<close> are summed over the batches. For every model whose forward
  pass in evaluation mode leaves the parameters and the mode as they are, the parameters
  after \<open>validate\<close> returns are the ones it was called with.
\<close>

theorem validate_frame_and_result:
  "validate v forward argmax criterion model valloader
     = (if valloader = [] \<or> snd (hd valloader) = [] then Inl ZeroDivisionError
        else Inr (snd (forward_passes forward (model\<lparr>training := False\<rparr>) valloader),
                  mean_loss v
                    (batch_losses criterion
                       (fst (forward_passes forward (model\<lparr>training := False\<rparr>) valloader))
                       valloader),
                  100 * real (sum_list
                    (batch_corrects argmax
                       (fst (forward_passes forward (model\<lparr>training := False\<rparr>) valloader))
                       valloader))
                    / real (sum_list (map batch_size valloader))))
   \<and> ((\<forall>m inputs. \<not> training m \<longrightarrow>
          state_dict (snd (forward False m inputs)) = state_dict m
          \<and> \<not> training (snd (forward False m inputs)))
        \<longrightarrow> (\<forall>m l a. validate v forward argmax criterion model valloader = Inr (m, l, a)
               \<longrightarrow> state_dict m = state_dict model \<and> \<not> training m))"
proof (intro conjI impI allI)
  show result: "validate v forward argmax criterion model valloader
     = (if valloader = [] \<or> snd (hd valloader) = [] then Inl ZeroDivisionError
        else Inr (snd (forward_passes forward (model\<lparr>training := False\<rparr>) valloader),
                  mean_loss v
                    (batch_losses criterion
                       (fst (forward_passes forward (model\<lparr>training := False\<rparr>) valloader))
                       valloader),
                  100 * real (sum_list
                    (batch_corrects argmax
                       (fst (forward_passes forward (model\<lparr>training := False\<rparr>) valloader))
                       valloader))
                    / real (sum_list (map batch_size valloader))))"
  proof (cases "valloader = [] \<or> snd (hd valloader) = []")
    case True
    then show ?thesis by (simp only: validate_raises if_True)
  next
    case False
    then have "valloader \<noteq> []" "snd (hd valloader) \<noteq> []" by simp_all
    from validate_returns [OF this] False show ?thesis by (simp only: if_False)
  qed
  fix m l a
  assume contract: "\<forall>m inputs. \<not> training m \<longrightarrow>
          state_dict (snd (forward False m inputs)) = state_dict m
          \<and> \<not> training (snd (forward False m inputs))"
    and ret: "validate v forward argmax criterion model valloader = Inr (m, l, a)"
  from ret result have m: "m = snd (forward_passes forward (model\<lparr>training := False\<rparr>) valloader)"
    by (simp split: if_splits)
  have "\<not> training (model\<lparr>training := False\<rparr>)" by simp
  from forward_passes_frame [where forward = forward, OF contract this, of valloader] m
  show "state_dict m = state_dict model" and "\<not> training m" by simp_all
qed

theorem validate_frame_and_result_witness:
  "validate Simple_cnn (\<lambda>grad m xs. (map (\<lambda>x. x + state_dict m) xs, m)) (\<lambda>out. out)
     (\<lambda>out labels. Fin (real (length labels)))
     \<lparr>state_dict = 1::nat, training = True\<rparr> [([0, 1], [1, 5]), ([2], [3])]
   = Inr (\<lparr>state_dict = 1, training = False\<rparr>, Tensor (Fin (3 / 2)), 200 / 3)
   \<and> state_dict \<lparr>state_dict = 1::nat, training = False\<rparr>
       = state_dict \<lparr>state_dict = 1::nat, training = True\<rparr>"
proof -
  let ?forward = "\<lambda>(grad::bool) (m::nat module) (xs::nat list). (map (\<lambda>x. x + state_dict m) xs, m)"
  let ?model = "\<lparr>state_dict = 1::nat, training = True\<rparr>"
  note inst = validate_frame_and_result
               [of Simple_cnn ?forward "\<lambda>out. out" "\<lambda>out labels. Fin (real (length labels))"
                   ?model "[([0, 1], [1, 5]), ([2], [3])]"]
  have contract: "\<forall>m inputs. \<not> training m \<longrightarrow>
          state_dict (snd (?forward False m inputs)) = state_dict m
          \<and> \<not> training (snd (?forward False m inputs))"
    by simp
  have ret: "validate Simple_cnn ?forward (\<lambda>out. out) (\<lambda>out labels. Fin (real (length labels)))
               ?model [([0, 1], [1, 5]), ([2], [3])]
             = Inr (\<lparr>state_dict = 1, training = False\<rparr>, Tensor (Fin (3 / 2)), 200 / 3)"
    using inst [THEN conjunct1]
    by (simp add: mean_loss_def sum_losses_def batch_losses_def batch_corrects_def
          batch_size_def correct_count_def finite_sum_small32)
  from inst [THEN conjunct2, THEN mp, OF contract, rule_format, OF ret] ret
  show ?thesis by simp
qed

end
